theory Spec2Isabelle
  imports Complex_Main "HOL-Library.Log_Nat" "HOL-Library.Code_Target_Numeral"
begin

section \<open>The retirement projection calculator (\<^verbatim>\<open>src/scripts/app.js\<close>)\<close>

text \<open>
  The computational core of the script is the class \<^verbatim>\<open>FinancialProfile\<close> (a record of
  ten numbers with \<^verbatim>\<open>validate\<close> and \<^verbatim>\<open>hasWindfallInYear\<close>) and the static methods of
  \<^verbatim>\<open>CalculationEngine\<close> (\<^verbatim>\<open>project\<close>, \<^verbatim>\<open>calculateSafeWithdrawal\<close>, \<^verbatim>\<open>formatCurrency\<close>).

  Conventions of the embedding:
  \<^item> Ages and calendar years are \<open>int\<close> (they are whole numbers in the default
    configuration and in the data model of the specification); money amounts and
    percentages are \<open>real\<close>. JavaScript numbers are IEEE doubles: the projection and
    the safe withdrawal are computed with exact reals, so rounding error, \<^verbatim>\<open>NaN\<close>,
    infinities and the negative zero are not represented there. The currency
    formatting prints digits, which depend on the rounding: there the quotient is
    rounded to a double and the sign of a zero is kept.
  \<^item> \<^verbatim>\<open>new Date().getFullYear()\<close> is an input of the computation: every function that
    reads the clock takes the year it would read as its first argument.
  \<^item> \<^verbatim>\<open>throw new Error(msg)\<close> is the value \<open>Inl (Error msg)\<close>.
\<close>

subsection \<open>Configuration\<close>

definition WITHDRAWAL_RATE :: real where
  "WITHDRAWAL_RATE = 4 / 100"

subsection \<open>Data model\<close>

record FinancialProfile =
  currentAge :: int
  retirementAge :: int
  currentSavings :: real
  monthlyInvestment :: real
  investmentReturn :: real
  windfallAmount :: real
  windfallEndYear :: int
  rent :: real
  otherExpenses :: real
  expenseInflation :: real

datatype error = Error string

text \<open>The three messages of \<^verbatim>\<open>validate\<close>, under the names the specification gives
  to the three kinds of failure.\<close>

definition InvalidTimeline :: error where
  "InvalidTimeline = Error ''Retirement age must be greater than current age''"

definition InvalidReturnRate :: error where
  "InvalidReturnRate = Error ''Investment return must be between 0% and 50%''"

definition InvalidWindfall :: error where
  "InvalidWindfall = Error ''Windfall amount cannot be negative''"

definition validate :: "FinancialProfile \<Rightarrow> error + bool" where
  "validate p =
     (if currentAge p \<ge> retirementAge p then Inl InvalidTimeline
      else if investmentReturn p < 0 \<or> investmentReturn p > 50 then Inl InvalidReturnRate
      else if windfallAmount p < 0 then Inl InvalidWindfall
      else Inr True)"

definition hasWindfallInYear :: "int \<Rightarrow> FinancialProfile \<Rightarrow> int \<Rightarrow> bool" where
  "hasWindfallInYear now p targetYear =
     (let currentYear = now;
          yearsFromNow = targetYear - currentYear;
          ageAtYear = currentAge p + yearsFromNow
      in ageAtYear < retirementAge p \<and>
         targetYear \<le> windfallEndYear p \<and>
         windfallAmount p > 0)"

subsection \<open>Calculation engine\<close>

record YearlyResult =
  year :: int
  age :: int
  portfolio :: real
  futureRent :: real
  futureOther :: real
  totalMonthlyExpenses :: real
  receivedWindfall :: bool

text \<open>
  The variables that are live across the iterations of the \<^verbatim>\<open>for\<close> loop of
  \<^verbatim>\<open>project\<close>: the profile object the method was called with, the running
  \<^verbatim>\<open>portfolioValue\<close> and the \<^verbatim>\<open>results\<close> array. The loop counter is an argument
  of the loop function.
\<close>

record loop_state =
  profile :: FinancialProfile
  portfolioValue :: real
  results :: "YearlyResult list"

definition loop_body :: "int \<Rightarrow> nat \<Rightarrow> loop_state \<Rightarrow> loop_state" where
  "loop_body currentYear yearOffset s =
     (let p = profile s;
          currentSimulationYear = currentYear + int yearOffset;
          simulatedAge = currentAge p + int yearOffset;
          grown = portfolioValue s * (1 + investmentReturn p / 100);
          invested = grown + monthlyInvestment p * 12;
          value = (if hasWindfallInYear currentYear p currentSimulationYear
                   then invested + windfallAmount p else invested);
          inflationFactor = (1 + expenseInflation p / 100) ^ yearOffset;
          futureMonthlyRent = rent p * inflationFactor;
          futureOtherMonthly = otherExpenses p * inflationFactor
      in s\<lparr>portfolioValue := value,
           results := results s @
             [\<lparr>year = currentSimulationYear,
               age = simulatedAge,
               portfolio = value,
               futureRent = futureMonthlyRent,
               futureOther = futureOtherMonthly,
               totalMonthlyExpenses = futureMonthlyRent + futureOtherMonthly,
               receivedWindfall = hasWindfallInYear currentYear p currentSimulationYear\<rparr>]\<rparr>)"

function project_loop :: "int \<Rightarrow> int \<Rightarrow> nat \<Rightarrow> loop_state \<Rightarrow> loop_state" where
  "project_loop currentYear yearsToProject yearOffset s =
     (if int yearOffset \<le> yearsToProject
      then project_loop currentYear yearsToProject (Suc yearOffset)
             (loop_body currentYear yearOffset s)
      else s)"
  by pat_completeness auto
termination
  by (relation "measure (\<lambda>(c, n, k, s). nat (n + 1 - int k))") auto

declare project_loop.simps [simp del]

text \<open>
  \<^verbatim>\<open>project\<close> with the profile object it leaves behind: the first component is what
  the method returns or throws, the second the state of the profile afterwards.
\<close>

definition project_st ::
  "int \<Rightarrow> FinancialProfile \<Rightarrow> (error + YearlyResult list) \<times> FinancialProfile" where
  "project_st now p =
     (case validate p of
        Inl e \<Rightarrow> (Inl e, p)
      | Inr _ \<Rightarrow>
          (let currentYear = now;
               yearsToProject = retirementAge p - currentAge p;
               s = project_loop currentYear yearsToProject 0
                     \<lparr>profile = p, portfolioValue = currentSavings p, results = []\<rparr>
           in (Inr (results s), profile s)))"

definition project :: "int \<Rightarrow> FinancialProfile \<Rightarrow> error + YearlyResult list" where
  "project now p = fst (project_st now p)"

text \<open>
  \<^verbatim>\<open>calculateSafeWithdrawal\<close>. \<^verbatim>\<open>Math.round\<close> rounds to the nearest integer, a tie going
  towards \<open>+\<infinity>\<close>: it is \<open>\<lfloor>x + 1/2\<rfloor>\<close>.
\<close>

definition Math_round :: "real \<Rightarrow> int" where
  "Math_round x = \<lfloor>x + 1 / 2\<rfloor>"

definition calculateSafeWithdrawal :: "real \<Rightarrow> int" where
  "calculateSafeWithdrawal finalPortfolioValue =
     (let annualWithdrawal = finalPortfolioValue * WITHDRAWAL_RATE;
          monthlyWithdrawal = annualWithdrawal / 12
      in Math_round monthlyWithdrawal)"

subsection \<open>Currency formatting\<close>

text \<open>
  \<^verbatim>\<open>formatCurrency\<close> prints digits, and the digits depend on how the division is rounded:
  here the embedding follows the double arithmetic of the code. \<open>double_of x\<close> is the
  double nearest to the real \<open>x\<close> (binary64, 53 significant bits, ties to the even
  significand, gradual underflow below \<open>2\<^sup>-\<^sup>1\<^sup>0\<^sup>2\<^sup>2\<close>); \<^verbatim>\<open>a / b\<close> on doubles is
  \<open>double_of (a / b)\<close>. Overflow to an infinity is not represented; the quotient of a
  double by \<open>10\<^sup>3\<close>, \<open>10\<^sup>6\<close> or \<open>10\<^sup>9\<close> never overflows.
\<close>

definition round_half_even :: "real \<Rightarrow> int" where
  "round_half_even y =
     (let f = \<lfloor>y\<rfloor>; d = y - of_int f
      in if d < 1 / 2 then f else if 1 / 2 < d then f + 1 else if even f then f else f + 1)"

text \<open>For \<open>x > 0\<close>, \<open>binary_exponent x\<close> is the \<open>e\<close> with \<open>2\<^sup>e \<le> x < 2\<^sup>e\<^sup>+\<^sup>1\<close>.\<close>

definition binary_exponent :: "real \<Rightarrow> int" where
  "binary_exponent x = (if 1 \<le> x then bitlen \<lfloor>x\<rfloor> - 1 else - bitlen (\<lceil>1 / x\<rceil> - 1))"

definition double_of :: "real \<Rightarrow> real" where
  "double_of x =
     (if x = 0 then 0
      else let e = max (binary_exponent \<bar>x\<bar>) (- 1022);
               ulp = 2 powi (e - 52)
           in of_int (round_half_even (x / ulp)) * ulp)"

text \<open>Decimal digits of a natural number.\<close>

definition digit_char :: "nat \<Rightarrow> char" where
  "digit_char d = ''0123456789'' ! d"

fun digits :: "nat \<Rightarrow> string" where
  "digits n = (if n < 10 then [digit_char n] else digits (n div 10) @ [digit_char (n mod 10)])"

declare digits.simps [simp del]

text \<open>
  \<^verbatim>\<open>Number.prototype.toString()\<close>, the general number printer of ECMAScript, for a
  double \<open>x\<close>. The printed digits are those of the shortest whole number \<open>s\<close> (with \<open>k\<close>
  digits) such that \<open>s \<times> 10\<^sup>n\<^sup>-\<^sup>k\<close> rounds to \<open>x\<close>; of several such \<open>s\<close> the one nearest to \<open>x\<close>
  is taken. \<open>decimal_exponent x\<close> is the \<open>n\<close> with \<open>10\<^sup>n\<^sup>-\<^sup>1 \<le> x < 10\<^sup>n\<close>;
  \<open>shortest_digits x n k\<close> tries \<open>k, k + 1, \<dots>, 17\<close> digits, with the two whole numbers
  next to \<open>x / 10\<^sup>n\<^sup>-\<^sup>k\<close> as candidates (17 digits always suffice for a double). The
  layout depends on \<open>n\<close>: plain digits up to \<open>10\<^sup>2\<^sup>1\<close>, a leading \<open>0.\<close> down to \<open>10\<^sup>-\<^sup>6\<close>,
  and exponent notation outside.
\<close>

definition decimal_exponent :: "real \<Rightarrow> int" where
  "decimal_exponent x =
     (if 1 \<le> x then int (length (digits (nat \<lfloor>x\<rfloor>)))
      else 1 - int (length (digits (nat (\<lceil>1 / x\<rceil> - 1)))))"

function shortest_digits :: "real \<Rightarrow> int \<Rightarrow> nat \<Rightarrow> int \<times> nat" where
  "shortest_digits x n k =
     (let scale = 10 powi (n - int k);
          lo = \<lfloor>x / scale\<rfloor>;
          hi = lo + 1;
          lo_ok = (double_of (of_int lo * scale) = x \<and> 10 ^ (k - 1) \<le> lo);
          hi_ok = (double_of (of_int hi * scale) = x);
          dlo = x - of_int lo * scale;
          dhi = of_int hi * scale - x
      in if lo_ok \<and> hi_ok
         then (if dlo < dhi \<or> (dlo = dhi \<and> even lo) then (lo, k) else (hi, k))
         else if lo_ok then (lo, k)
         else if hi_ok then (hi, k)
         else if 17 \<le> k then (lo, k)
         else shortest_digits x n (Suc k))"
  by pat_completeness auto
termination
  by (relation "measure (\<lambda>(x, n, k). 17 - k)") auto

declare shortest_digits.simps [simp del]

definition Number_toString :: "real \<Rightarrow> string" where
  "Number_toString x0 =
     (if x0 = 0 then ''0''
      else let x = \<bar>x0\<bar>;
               sign = (if x0 < 0 then ''-'' else '''');
               n0 = decimal_exponent x;
               (m, k0) = shortest_digits x n0 1;
               (s, k, n) = (if m = 10 ^ k0 then (1, 1, n0 + 1) else (nat m, k0, n0));
               ds = digits s
           in sign @
              (if int k \<le> n \<and> n \<le> 21 then ds @ replicate (nat (n - int k)) CHR ''0''
               else if 0 < n \<and> n \<le> 21 then take (nat n) ds @ ''.'' @ drop (nat n) ds
               else if - 6 < n \<and> n \<le> 0 then ''0.'' @ replicate (nat (- n)) CHR ''0'' @ ds
               else let e = n - 1;
                        es = (if e < 0 then ''-'' else ''+'') @ digits (nat \<bar>e\<bar>)
                    in if k = 1 then ds @ ''e'' @ es
                       else take 1 ds @ ''.'' @ drop 1 ds @ ''e'' @ es))"

text \<open>
  \<^verbatim>\<open>Number.prototype.toFixed(f)\<close> follows the ECMAScript algorithm: the sign is split
  off; a magnitude of \<open>10\<^sup>2\<^sup>1\<close> or more is printed by the general number printer,
  otherwise \<open>n\<close> is the whole number nearest to the exact value of \<open>x \<times> 10\<^sup>f\<close> (the larger
  one at a tie), its decimal digits are padded with zeros on the left to \<open>f + 1\<close>
  digits, and a point is put before the last \<open>f\<close> of them.
\<close>

definition toFixed :: "nat \<Rightarrow> real \<Rightarrow> string" where
  "toFixed f x0 =
     (let s = (if x0 < 0 then ''-'' else '''');
          x = (if x0 < 0 then - x0 else x0);
          m = (if x \<ge> 10 ^ 21 then Number_toString x
               else let n = nat \<lfloor>x * 10 ^ f + 1 / 2\<rfloor>;
                        m0 = digits n
                    in if f \<noteq> 0
                       then (let m1 = replicate (f + 1 - length m0) CHR ''0'' @ m0;
                                 k = length m1
                             in take (k - f) m1 @ ''.'' @ drop (k - f) m1)
                       else m0)
      in s @ m)"

text \<open>
  \<^verbatim>\<open>Math.round(value).toLocaleString()\<close>. The whole number that \<^verbatim>\<open>Math.round\<close> returns
  for a negative argument above \<open>-1/2\<close> is the negative zero, which
  \<^verbatim>\<open>toLocaleString\<close> prints with its sign: \<open>Math_round_signed\<close> is \<open>Math_round\<close> with the
  sign of a zero kept. What \<^verbatim>\<open>toLocaleString\<close> prints depends on the locale of the
  host: it is the parameter \<open>toLocaleString\<close> of \<open>formatCurrency\<close>.
  \<open>toLocaleString_en_US\<close> is the printer of the locale \<^verbatim>\<open>en-US\<close>, with a comma between
  groups of three digits.
\<close>

datatype js_whole = MinusZero | Whole int

definition Math_round_signed :: "real \<Rightarrow> js_whole" where
  "Math_round_signed x = (if x < 0 \<and> Math_round x = 0 then MinusZero else Whole (Math_round x))"

fun group_thousands :: "nat \<Rightarrow> string" where
  "group_thousands n =
     (if n < 1000 then digits n
      else group_thousands (n div 1000) @ '','' @
           (let d = digits (n mod 1000) in replicate (3 - length d) CHR ''0'' @ d))"

declare group_thousands.simps [simp del]

fun toLocaleString_en_US :: "js_whole \<Rightarrow> string" where
  "toLocaleString_en_US MinusZero = ''-0''"
| "toLocaleString_en_US (Whole n) =
     (if n < 0 then ''-'' @ group_thousands (nat (- n)) else group_thousands (nat n))"

definition formatCurrency :: "(js_whole \<Rightarrow> string) \<Rightarrow> real \<Rightarrow> string" where
  "formatCurrency toLocaleString v =
     (if v \<ge> 1000000000 then ''$'' @ toFixed 2 (double_of (v / 1000000000)) @ ''B''
      else if v \<ge> 1000000 then ''$'' @ toFixed 2 (double_of (v / 1000000)) @ ''M''
      else if v \<ge> 10000 then ''$'' @ toFixed 1 (double_of (v / 1000)) @ ''k''
      else ''$'' @ toLocaleString (Math_round_signed v))"

subsection \<open>Default configuration\<close>

definition DEFAULT_PROFILE :: FinancialProfile where
  "DEFAULT_PROFILE =
     \<lparr>currentAge = 47, retirementAge = 67, currentSavings = 0, monthlyInvestment = 250,
      investmentReturn = 7, windfallAmount = 10000, windfallEndYear = 2030,
      rent = 1200, otherExpenses = 800, expenseInflation = 3\<rparr>"

subsection \<open>Closed form of the projection\<close>

text \<open>
  Two auxiliary functions describe what the loop computes: \<open>portfolio_before now p k\<close>
  is the value of \<^verbatim>\<open>portfolioValue\<close> on entry to the iteration with offset \<open>k\<close>, and
  \<open>yearly now p k\<close> is the object pushed by that iteration. The lemma
  \<open>project_valid\<close> below proves that the loop produces exactly these.
\<close>

primrec portfolio_before :: "int \<Rightarrow> FinancialProfile \<Rightarrow> nat \<Rightarrow> real" where
  "portfolio_before now p 0 = currentSavings p"
| "portfolio_before now p (Suc k) =
     (let invested = portfolio_before now p k * (1 + investmentReturn p / 100)
                       + monthlyInvestment p * 12
      in if hasWindfallInYear now p (now + int k) then invested + windfallAmount p
         else invested)"

definition yearly :: "int \<Rightarrow> FinancialProfile \<Rightarrow> nat \<Rightarrow> YearlyResult" where
  "yearly now p k =
     \<lparr>year = now + int k,
      age = currentAge p + int k,
      portfolio = portfolio_before now p (Suc k),
      futureRent = rent p * (1 + expenseInflation p / 100) ^ k,
      futureOther = otherExpenses p * (1 + expenseInflation p / 100) ^ k,
      totalMonthlyExpenses = rent p * (1 + expenseInflation p / 100) ^ k
                               + otherExpenses p * (1 + expenseInflation p / 100) ^ k,
      receivedWindfall = hasWindfallInYear now p (now + int k)\<rparr>"

section \<open>Properties\<close>

subsection \<open>The loop\<close>

lemma loop_body_profile: "profile (loop_body c k s) = profile s"
  by (simp add: loop_body_def Let_def)

lemma project_loop_profile: "profile (project_loop c n k s) = profile s"
proof (induction c n k s rule: project_loop.induct)
  case (1 c n k s)
  show ?case
  proof (cases "int k \<le> n")
    case True
    then have "profile (project_loop c n k s) = profile (loop_body c k s)"
      using "1.IH" by (subst project_loop.simps) simp
    then show ?thesis by (simp add: loop_body_profile)
  next
    case False
    then show ?thesis by (subst project_loop.simps) simp
  qed
qed

lemma loop_body_yearly:
  assumes "portfolioValue s = portfolio_before c (profile s) k"
  shows "portfolioValue (loop_body c k s) = portfolio_before c (profile s) (Suc k)"
    and "results (loop_body c k s) = results s @ [yearly c (profile s) k]"
  using assms by (simp_all add: loop_body_def yearly_def Let_def)

lemma project_loop_results:
  assumes "portfolioValue s = portfolio_before c (profile s) k"
    and "results s = map (yearly c (profile s)) [0..<k]"
    and "int k \<le> n + 1"
  shows "results (project_loop c n k s) = map (yearly c (profile s)) [0..<nat (n + 1)]"
  using assms
proof (induction c n k s rule: project_loop.induct)
  case (1 c n k s)
  show ?case
  proof (cases "int k \<le> n")
    case True
    let ?s = "loop_body c k s"
    have a: "portfolioValue ?s = portfolio_before c (profile ?s) (Suc k)"
      using "1.prems"(1) by (simp add: loop_body_yearly loop_body_profile)
    have b: "results ?s = map (yearly c (profile ?s)) [0..<Suc k]"
      using "1.prems"(1,2) by (simp add: loop_body_yearly loop_body_profile)
    have c: "int (Suc k) \<le> n + 1" using True by simp
    have "results (project_loop c n (Suc k) ?s) = map (yearly c (profile ?s)) [0..<nat (n + 1)]"
      using "1.IH" [OF True a b c] .
    then show ?thesis
      using True by (subst project_loop.simps) (simp add: loop_body_profile)
  next
    case False
    with "1.prems"(3) have "nat (n + 1) = k" by linarith
    then show ?thesis
      using False "1.prems"(2) by (subst project_loop.simps) simp
  qed
qed

lemma project_valid:
  assumes "validate p = Inr True"
  shows "project now p = Inr (map (yearly now p) [0..<nat (retirementAge p - currentAge p + 1)])"
proof -
  let ?s = "\<lparr>profile = p, portfolioValue = currentSavings p, results = []\<rparr>"
  have "currentAge p < retirementAge p"
    using assms by (simp add: validate_def split: if_splits)
  then have "results (project_loop now (retirementAge p - currentAge p) 0 ?s)
      = map (yearly now (profile ?s)) [0..<nat (retirementAge p - currentAge p + 1)]"
    by (intro project_loop_results) simp_all
  then show ?thesis
    using assms by (simp add: project_def project_st_def Let_def)
qed

lemma validate_Inr_iff:
  "validate p = Inr b \<longleftrightarrow>
     b \<and> currentAge p < retirementAge p \<and> 0 \<le> investmentReturn p \<and> investmentReturn p \<le> 50
       \<and> 0 \<le> windfallAmount p"
  by (auto simp add: validate_def)

lemma project_invalid: "validate p = Inl e \<Longrightarrow> project now p = Inl e"
  by (simp add: project_def project_st_def)

lemma ages_upto: "map (\<lambda>k. a + int k) [0..<nat (b - a + 1)] = [a..b]"
  by (rule nth_equalityI) simp_all

lemma map_age_yearly: "map age (map (yearly now p) ks) = map (\<lambda>k. currentAge p + int k) ks"
  by (simp add: yearly_def)

lemma portfolio_before_const:
  assumes "investmentReturn p = 0" and "monthlyInvestment p = 0" and "windfallAmount p = 0"
  shows "portfolio_before now p k = currentSavings p"
  using assms by (induction k) (simp_all add: Let_def)

lemma portfolio_before_step:
  assumes "0 \<le> investmentReturn p" and "0 \<le> monthlyInvestment p" and "0 \<le> windfallAmount p"
    and "0 \<le> portfolio_before now p k"
  shows "portfolio_before now p k \<le> portfolio_before now p (Suc k)"
proof -
  let ?v = "portfolio_before now p k"
  have "0 \<le> ?v * (investmentReturn p / 100)"
    using assms(1,4) by simp
  then have "?v \<le> ?v * (1 + investmentReturn p / 100)"
    by (simp add: algebra_simps)
  then show ?thesis
    using assms(2,3) by (simp add: Let_def)
qed

lemma portfolio_before_ge:
  assumes "0 \<le> investmentReturn p" and "0 \<le> monthlyInvestment p" and "0 \<le> windfallAmount p"
    and "0 \<le> currentSavings p"
  shows "currentSavings p \<le> portfolio_before now p k"
proof (induction k)
  case 0
  show ?case by simp
next
  case (Suc k)
  have "0 \<le> portfolio_before now p k"
    using Suc assms(4) by linarith
  then have "portfolio_before now p k \<le> portfolio_before now p (Suc k)"
    using assms(1-3) by (intro portfolio_before_step)
  with Suc show ?case by linarith
qed

lemma portfolio_before_mono:
  assumes "0 \<le> investmentReturn p" and "0 \<le> monthlyInvestment p" and "0 \<le> windfallAmount p"
    and "0 \<le> currentSavings p" and "i \<le> j"
  shows "portfolio_before now p i \<le> portfolio_before now p j"
  using assms(5)
proof (induction j)
  case 0
  then show ?case by simp
next
  case (Suc j)
  have "0 \<le> portfolio_before now p j"
    using portfolio_before_ge [OF assms(1-4), of now j] assms(4) by linarith
  then have step: "portfolio_before now p j \<le> portfolio_before now p (Suc j)"
    using assms(1-3) by (intro portfolio_before_step)
  show ?case
  proof (cases "i = Suc j")
    case True
    then show ?thesis by simp
  next
    case False
    with Suc.prems have "i \<le> j" by simp
    with Suc.IH step show ?thesis by linarith
  qed
qed

subsection \<open>Rounding to a double\<close>

lemma round_half_even_le: "of_int (round_half_even y) \<le> y + 1"
proof -
  have "of_int \<lfloor>y\<rfloor> \<le> y" by simp
  then show ?thesis
    unfolding round_half_even_def Let_def by (auto split: if_splits) linarith+
qed

lemma round_half_even_nonneg: "0 \<le> y \<Longrightarrow> 0 \<le> round_half_even y"
proof -
  assume "0 \<le> y"
  then have "0 \<le> \<lfloor>y\<rfloor>" by simp
  then show ?thesis
    by (simp add: round_half_even_def Let_def)
qed

lemma double_of_nonneg:
  assumes "0 \<le> x"
  shows "0 \<le> double_of x"
proof (cases "x = 0")
  case True
  then show ?thesis by (simp add: double_of_def)
next
  case False
  define ulp :: real where "ulp = 2 powi (max (binary_exponent \<bar>x\<bar>) (- 1022) - 52)"
  have "0 < ulp"
    by (simp add: ulp_def)
  then have "0 \<le> x / ulp"
    using assms by simp
  then have "0 \<le> round_half_even (x / ulp)"
    by (rule round_half_even_nonneg)
  then have "0 \<le> of_int (round_half_even (x / ulp)) * ulp"
    using \<open>0 < ulp\<close> by simp
  then show ?thesis
    using False by (simp add: double_of_def Let_def ulp_def)
qed

lemma binary_exponent_ge_1:
  assumes "1 \<le> x"
  shows "0 \<le> binary_exponent x" and "2 powi binary_exponent x \<le> x"
proof -
  have m: "0 < \<lfloor>x\<rfloor>"
    using assms by simp
  have e: "binary_exponent x = bitlen \<lfloor>x\<rfloor> - 1"
    using assms by (simp add: binary_exponent_def)
  have "1 \<le> bitlen \<lfloor>x\<rfloor>"
    using m by (simp add: bitlen_alt_def)
  then show nonneg: "0 \<le> binary_exponent x"
    by (simp add: e)
  have "2 ^ nat (bitlen \<lfloor>x\<rfloor> - 1) \<le> \<lfloor>x\<rfloor>"
    using bitlen_bounds [OF m] by simp
  then have "real_of_int (2 ^ nat (bitlen \<lfloor>x\<rfloor> - 1)) \<le> of_int \<lfloor>x\<rfloor>"
    by (simp only: of_int_le_iff)
  also have "\<dots> \<le> x" by simp
  finally have "(2::real) ^ nat (binary_exponent x) \<le> x"
    by (simp add: e)
  then show "2 powi binary_exponent x \<le> x"
    using nonneg by (simp add: power_int_def)
qed

lemma double_of_le:
  assumes "1 \<le> x"
  shows "double_of x \<le> 2 * x"
proof -
  define e where "e = binary_exponent x"
  define ulp :: real where "ulp = 2 powi (e - 52)"
  have e0: "0 \<le> e" and pe: "2 powi e \<le> x"
    using binary_exponent_ge_1 [OF assms] by (simp_all add: e_def)
  have pos: "0 < ulp"
    by (simp add: ulp_def)
  have "ulp \<le> 2 powi e"
    unfolding ulp_def by (rule power_int_increasing) simp_all
  with pe have ux: "ulp \<le> x" by linarith
  have d: "double_of x = of_int (round_half_even (x / ulp)) * ulp"
    using assms e0 by (simp add: double_of_def Let_def ulp_def e_def max_def)
  have "of_int (round_half_even (x / ulp)) * ulp \<le> (x / ulp + 1) * ulp"
    using round_half_even_le [of "x / ulp"] pos by (simp only: mult_right_mono less_imp_le)
  also have "\<dots> = x + ulp"
    using pos by (simp add: field_simps)
  finally show ?thesis
    using d ux by linarith
qed

subsection \<open>Decimal digits\<close>

lemma digit_char_0: "digit_char 0 = CHR ''0''"
  by (simp add: digit_char_def)

lemma digits_lt_10: "n < 10 \<Longrightarrow> digits n = [digit_char n]"
  by (subst digits.simps) simp

lemma digits_ge_10: "10 \<le> n \<Longrightarrow> digits n = digits (n div 10) @ [digit_char (n mod 10)]"
  by (subst digits.simps) simp

lemma length_digits_pos: "Suc 0 \<le> length (digits n)"
  by (subst digits.simps) simp

lemma point_one_digit:
  fixes n :: nat
  defines "m1 \<equiv> replicate (1 + 1 - length (digits n)) CHR ''0'' @ digits n"
  shows "take (length m1 - 1) m1 @ ''.'' @ drop (length m1 - 1) m1
           = digits (n div 10) @ ''.'' @ [digit_char (n mod 10)]"
proof (cases "n < 10")
  case True
  then show ?thesis
    by (simp add: m1_def digits_lt_10 digit_char_0)
next
  case False
  then have d: "digits n = digits (n div 10) @ [digit_char (n mod 10)]"
    by (simp add: digits_ge_10)
  have "Suc 0 \<le> length (digits (n div 10))" by (rule length_digits_pos)
  then have "Suc (Suc 0) - length (digits n) = 0"
    by (simp add: d)
  then show ?thesis
    by (simp add: m1_def d)
qed

lemma point_two_digits:
  fixes n :: nat
  defines "m1 \<equiv> replicate (2 + 1 - length (digits n)) CHR ''0'' @ digits n"
  shows "take (length m1 - 2) m1 @ ''.'' @ drop (length m1 - 2) m1
           = digits (n div 100) @ ''.'' @ [digit_char (n div 10 mod 10), digit_char (n mod 10)]"
proof -
  consider "n < 10" | "10 \<le> n" "n < 100" | "100 \<le> n" by linarith
  then show ?thesis
  proof cases
    case 1
    then show ?thesis
      by (simp add: m1_def digits_lt_10 digit_char_0)
  next
    case 2
    then have "n div 10 < 10" by simp
    then have d: "digits n = [digit_char (n div 10), digit_char (n mod 10)]"
      using 2 by (simp add: digits_ge_10 digits_lt_10)
    have "n div 100 = 0" "n div 10 mod 10 = n div 10"
      using 2 by simp_all
    then show ?thesis
      by (simp add: m1_def d digits_lt_10 digit_char_0)
  next
    case 3
    then have "10 \<le> n" "10 \<le> n div 10" by simp_all
    moreover have "n div 10 div 10 = n div 100"
      by (simp flip: div_mult2_eq)
    ultimately have d: "digits n = digits (n div 100) @ [digit_char (n div 10 mod 10), digit_char (n mod 10)]"
      by (simp add: digits_ge_10)
    have "Suc 0 \<le> length (digits (n div 100))" by (rule length_digits_pos)
    then have "3 - length (digits n) = 0"
      by (simp add: d)
    then show ?thesis
      by (simp add: m1_def d)
  qed
qed

lemma toFixed_1:
  assumes "0 \<le> x" and "x < 10 ^ 21"
  shows "toFixed 1 x =
           (let n = nat (round (x * 10))
            in digits (n div 10) @ ''.'' @ [digit_char (n mod 10)])"
  using assms point_one_digit [of "nat \<lfloor>x * 10 + 1 / 2\<rfloor>"]
  by (simp add: toFixed_def Let_def round_def)

lemma toFixed_2:
  assumes "0 \<le> x" and "x < 10 ^ 21"
  shows "toFixed 2 x =
           (let n = nat (round (x * 100))
            in digits (n div 100) @ ''.'' @ [digit_char (n div 10 mod 10), digit_char (n mod 10)])"
  using assms point_two_digits [of "nat \<lfloor>x * 100 + 1 / 2\<rfloor>"]
  by (simp add: toFixed_def Let_def round_def)

lemma toFixed_exponent:
  assumes "10 ^ 21 \<le> x"
  shows "toFixed f x = Number_toString x"
proof -
  have "(0::real) < 10 ^ 21" by simp
  with assms have "\<not> x < 0" by linarith
  then show ?thesis
    using assms by (simp add: toFixed_def Let_def)
qed

section \<open>The claims\<close>

subsection \<open>Order of growth, contribution and windfall\<close>

text \<open>
  Claim C1. For a profile that passes validation, the portfolio emitted for offset 0 is
  \<open>currentSavings \<times> (1 + investmentReturn/100) + monthlyInvestment \<times> 12\<close>, plus
  \<open>windfallAmount\<close> exactly when the windfall rule holds for that simulation year; the
  portfolio emitted for each later offset is obtained in the same way from the
  portfolio emitted for the offset before it. For the profile with currentAge 47,
  retirementAge 48, no savings, 250 a month, 7 percent return, no windfall, no rent and
  no other expenses the projection has two entries with portfolios 3000 and 6210,
  whatever the reference year, the windfall end year and the inflation rate are.
\<close>

theorem project_growth_order:
  "(validate p = Inr True \<longrightarrow>
      (\<exists>rs. project now p = Inr rs \<and> rs \<noteq> []
         \<and> portfolio (rs ! 0) =
             currentSavings p * (1 + investmentReturn p / 100) + monthlyInvestment p * 12
               + (if hasWindfallInYear now p (year (rs ! 0)) then windfallAmount p else 0)
         \<and> (\<forall>k. Suc k < length rs \<longrightarrow>
               portfolio (rs ! Suc k) =
                 portfolio (rs ! k) * (1 + investmentReturn p / 100) + monthlyInvestment p * 12
                   + (if hasWindfallInYear now p (year (rs ! Suc k)) then windfallAmount p else 0))))
   \<and> project now
        \<lparr>currentAge = 47, retirementAge = 48, currentSavings = 0, monthlyInvestment = 250,
         investmentReturn = 7, windfallAmount = 0, windfallEndYear = endYear,
         rent = 0, otherExpenses = 0, expenseInflation = inflation\<rparr>
       = Inr [\<lparr>year = now, age = 47, portfolio = 3000, futureRent = 0, futureOther = 0,
               totalMonthlyExpenses = 0, receivedWindfall = False\<rparr>,
              \<lparr>year = now + 1, age = 48, portfolio = 6210, futureRent = 0, futureOther = 0,
               totalMonthlyExpenses = 0, receivedWindfall = False\<rparr>]"
proof -
  have gen: "\<exists>rs. project now p = Inr rs \<and> rs \<noteq> []
         \<and> portfolio (rs ! 0) =
             currentSavings p * (1 + investmentReturn p / 100) + monthlyInvestment p * 12
               + (if hasWindfallInYear now p (year (rs ! 0)) then windfallAmount p else 0)
         \<and> (\<forall>k. Suc k < length rs \<longrightarrow>
               portfolio (rs ! Suc k) =
                 portfolio (rs ! k) * (1 + investmentReturn p / 100) + monthlyInvestment p * 12
                   + (if hasWindfallInYear now p (year (rs ! Suc k)) then windfallAmount p else 0))"
    if v: "validate p = Inr True"
  proof -
    let ?n = "nat (retirementAge p - currentAge p + 1)"
    let ?rs = "map (yearly now p) [0..<?n]"
    have pos: "0 < ?n"
      using v by (simp add: validate_Inr_iff)
    have "project now p = Inr ?rs"
      using v by (rule project_valid)
    moreover have "?rs \<noteq> []"
      using pos by simp
    moreover have "portfolio (?rs ! 0) =
             currentSavings p * (1 + investmentReturn p / 100) + monthlyInvestment p * 12
               + (if hasWindfallInYear now p (year (?rs ! 0)) then windfallAmount p else 0)"
      using pos by (simp add: yearly_def Let_def)
    moreover have "\<forall>k. Suc k < length ?rs \<longrightarrow>
               portfolio (?rs ! Suc k) =
                 portfolio (?rs ! k) * (1 + investmentReturn p / 100) + monthlyInvestment p * 12
                   + (if hasWindfallInYear now p (year (?rs ! Suc k)) then windfallAmount p else 0)"
      by (simp add: yearly_def Let_def)
    ultimately show ?thesis by blast
  qed
  let ?ex = "\<lparr>currentAge = 47, retirementAge = 48, currentSavings = 0, monthlyInvestment = 250,
         investmentReturn = 7, windfallAmount = 0, windfallEndYear = endYear,
         rent = 0, otherExpenses = 0, expenseInflation = inflation\<rparr>"
  have "validate ?ex = Inr True"
    by (simp add: validate_def)
  then have "project now ?ex
      = Inr (map (yearly now ?ex) [0..<nat (retirementAge ?ex - currentAge ?ex + 1)])"
    by (rule project_valid)
  moreover have "[0..<nat (retirementAge ?ex - currentAge ?ex + 1)] = [0, 1]"
    by (simp add: upt_rec)
  ultimately have "project now ?ex = Inr [yearly now ?ex 0, yearly now ?ex 1]"
    by simp
  then have ex: "project now ?ex
       = Inr [\<lparr>year = now, age = 47, portfolio = 3000, futureRent = 0, futureOther = 0,
               totalMonthlyExpenses = 0, receivedWindfall = False\<rparr>,
              \<lparr>year = now + 1, age = 48, portfolio = 6210, futureRent = 0, futureOther = 0,
               totalMonthlyExpenses = 0, receivedWindfall = False\<rparr>]"
    by (simp add: yearly_def hasWindfallInYear_def Let_def)
  from gen ex show ?thesis by blast
qed

theorem project_growth_order_witness:
  "validate DEFAULT_PROFILE = Inr True
   \<and> (\<exists>rs. project 2026 DEFAULT_PROFILE = Inr rs \<and> rs \<noteq> []
         \<and> portfolio (rs ! 0) =
             0 * (1 + 7 / 100) + 250 * 12
               + (if hasWindfallInYear 2026 DEFAULT_PROFILE (year (rs ! 0)) then 10000 else 0)
         \<and> (\<forall>k. Suc k < length rs \<longrightarrow>
               portfolio (rs ! Suc k) =
                 portfolio (rs ! k) * (1 + 7 / 100) + 250 * 12
                   + (if hasWindfallInYear 2026 DEFAULT_PROFILE (year (rs ! Suc k))
                      then 10000 else 0)))"
proof -
  have v: "validate DEFAULT_PROFILE = Inr True"
    by (simp add: validate_def DEFAULT_PROFILE_def)
  have f: "currentSavings DEFAULT_PROFILE = 0" "investmentReturn DEFAULT_PROFILE = 7"
    "monthlyInvestment DEFAULT_PROFILE = 250" "windfallAmount DEFAULT_PROFILE = 10000"
    by (simp_all add: DEFAULT_PROFILE_def)
  from project_growth_order [of DEFAULT_PROFILE 2026] v show ?thesis
    unfolding f by blast
qed

subsection \<open>Length, ages and years of the projection\<close>

text \<open>
  Claim C2. For a profile that passes validation (so \<open>currentAge < retirementAge\<close>) the
  projection returns exactly \<open>retirementAge - currentAge + 1\<close> entries; their ages are
  \<open>currentAge, currentAge + 1, \<dots>, retirementAge\<close> in this order, and the entry at
  offset \<open>k\<close> has the year \<open>referenceYear + k\<close>.
\<close>

theorem project_length_ages_years:
  assumes "validate p = Inr True"
  shows "\<exists>rs. project now p = Inr rs
            \<and> int (length rs) = retirementAge p - currentAge p + 1
            \<and> map age rs = [currentAge p..retirementAge p]
            \<and> (\<forall>k<length rs. age (rs ! k) = currentAge p + int k \<and> year (rs ! k) = now + int k)"
proof -
  let ?n = "nat (retirementAge p - currentAge p + 1)"
  let ?rs = "map (yearly now p) [0..<?n]"
  have lt: "currentAge p < retirementAge p"
    using assms by (simp add: validate_Inr_iff)
  have "project now p = Inr ?rs"
    using assms by (rule project_valid)
  moreover have "int (length ?rs) = retirementAge p - currentAge p + 1"
    using lt by simp
  moreover have "map age ?rs = [currentAge p..retirementAge p]"
    by (simp only: map_age_yearly ages_upto)
  moreover have "\<forall>k<length ?rs. age (?rs ! k) = currentAge p + int k \<and> year (?rs ! k) = now + int k"
    by (simp add: yearly_def)
  ultimately show ?thesis by blast
qed

theorem project_length_ages_years_witness:
  "validate DEFAULT_PROFILE = Inr True
   \<and> (\<exists>rs. project 2026 DEFAULT_PROFILE = Inr rs
         \<and> int (length rs) = 67 - 47 + 1
         \<and> map age rs = [47..67]
         \<and> (\<forall>k<length rs. age (rs ! k) = 47 + int k \<and> year (rs ! k) = 2026 + int k))"
proof -
  have v: "validate DEFAULT_PROFILE = Inr True"
    by (simp add: validate_def DEFAULT_PROFILE_def)
  have f: "currentAge DEFAULT_PROFILE = 47" "retirementAge DEFAULT_PROFILE = 67"
    by (simp_all add: DEFAULT_PROFILE_def)
  from project_length_ages_years [OF v, of 2026] v show ?thesis
    unfolding f by blast
qed

subsection \<open>Windfall eligibility\<close>

text \<open>
  Claim C3. \<open>hasWindfallInYear\<close> holds for a target year if and only if the age reached in
  that year is below the retirement age, the year is not after \<open>windfallEndYear\<close> and
  \<open>windfallAmount\<close> is positive; if any one of the three conditions fails, the test
  fails. In the projection of a profile that passes validation, the flag
  \<open>receivedWindfall\<close> of every entry is the value of this test at the year of the entry.
\<close>

theorem hasWindfallInYear_iff:
  "(hasWindfallInYear now p targetYear \<longleftrightarrow>
      currentAge p + (targetYear - now) < retirementAge p
        \<and> targetYear \<le> windfallEndYear p \<and> windfallAmount p > 0)
   \<and> (\<not> currentAge p + (targetYear - now) < retirementAge p
        \<longrightarrow> \<not> hasWindfallInYear now p targetYear)
   \<and> (\<not> targetYear \<le> windfallEndYear p \<longrightarrow> \<not> hasWindfallInYear now p targetYear)
   \<and> (\<not> windfallAmount p > 0 \<longrightarrow> \<not> hasWindfallInYear now p targetYear)
   \<and> (validate p = Inr True \<longrightarrow>
        (\<exists>rs. project now p = Inr rs
           \<and> (\<forall>k<length rs. year (rs ! k) = now + int k
                 \<and> receivedWindfall (rs ! k) = hasWindfallInYear now p (year (rs ! k)))))"
proof -
  have "\<exists>rs. project now p = Inr rs
           \<and> (\<forall>k<length rs. year (rs ! k) = now + int k
                 \<and> receivedWindfall (rs ! k) = hasWindfallInYear now p (year (rs ! k)))"
    if v: "validate p = Inr True"
  proof -
    let ?rs = "map (yearly now p) [0..<nat (retirementAge p - currentAge p + 1)]"
    have "project now p = Inr ?rs"
      using v by (rule project_valid)
    moreover have "\<forall>k<length ?rs. year (?rs ! k) = now + int k
                 \<and> receivedWindfall (?rs ! k) = hasWindfallInYear now p (year (?rs ! k))"
      by (simp add: yearly_def)
    ultimately show ?thesis by blast
  qed
  then show ?thesis
    by (auto simp add: hasWindfallInYear_def Let_def)
qed

theorem hasWindfallInYear_iff_witness:
  "hasWindfallInYear 2026 DEFAULT_PROFILE 2027
   \<and> \<not> hasWindfallInYear 2026 DEFAULT_PROFILE 2046
   \<and> \<not> hasWindfallInYear 2026 DEFAULT_PROFILE 2031
   \<and> \<not> hasWindfallInYear 2026 (DEFAULT_PROFILE\<lparr>windfallAmount := 0\<rparr>) 2027
   \<and> validate DEFAULT_PROFILE = Inr True
   \<and> (\<exists>rs. project 2026 DEFAULT_PROFILE = Inr rs
         \<and> (\<forall>k<length rs. year (rs ! k) = 2026 + int k
               \<and> receivedWindfall (rs ! k) = hasWindfallInYear 2026 DEFAULT_PROFILE (year (rs ! k))))"
proof -
  have v: "validate DEFAULT_PROFILE = Inr True"
    by (simp add: validate_def DEFAULT_PROFILE_def)
  have "hasWindfallInYear 2026 DEFAULT_PROFILE 2027"
    using hasWindfallInYear_iff [of 2026 DEFAULT_PROFILE 2027]
    by (simp add: DEFAULT_PROFILE_def)
  moreover have "\<not> hasWindfallInYear 2026 DEFAULT_PROFILE 2046"
    using hasWindfallInYear_iff [of 2026 DEFAULT_PROFILE 2046]
    by (simp add: DEFAULT_PROFILE_def)
  moreover have "\<not> hasWindfallInYear 2026 DEFAULT_PROFILE 2031"
    using hasWindfallInYear_iff [of 2026 DEFAULT_PROFILE 2031]
    by (simp add: DEFAULT_PROFILE_def)
  moreover have "\<not> hasWindfallInYear 2026 (DEFAULT_PROFILE\<lparr>windfallAmount := 0\<rparr>) 2027"
    using hasWindfallInYear_iff [of 2026 "DEFAULT_PROFILE\<lparr>windfallAmount := 0\<rparr>" 2027]
    by simp
  moreover have "\<exists>rs. project 2026 DEFAULT_PROFILE = Inr rs
         \<and> (\<forall>k<length rs. year (rs ! k) = 2026 + int k
               \<and> receivedWindfall (rs ! k) = hasWindfallInYear 2026 DEFAULT_PROFILE (year (rs ! k)))"
    using hasWindfallInYear_iff [of 2026 DEFAULT_PROFILE 2027] v by blast
  ultimately show ?thesis
    using v by blast
qed

subsection \<open>Validation\<close>

text \<open>
  Claim C4. \<open>validate\<close> checks three rules in order and the first failure wins: a
  profile with \<open>currentAge \<ge> retirementAge\<close> fails with \<open>InvalidTimeline\<close>; otherwise one
  with \<open>investmentReturn\<close> outside \<open>[0, 50]\<close> fails with \<open>InvalidReturnRate\<close>; otherwise
  one with a negative \<open>windfallAmount\<close> fails with \<open>InvalidWindfall\<close>; otherwise
  validation succeeds. The three failures are pairwise different values. When
  validation fails, \<open>project\<close> fails with the same error and returns no sequence; when it
  succeeds, \<open>project\<close> returns a sequence, so a failure is never confused with a result.
\<close>

theorem validate_first_failure_wins:
  "(retirementAge p \<le> currentAge p \<longrightarrow> validate p = Inl InvalidTimeline)
   \<and> (currentAge p < retirementAge p \<and> (investmentReturn p < 0 \<or> 50 < investmentReturn p)
        \<longrightarrow> validate p = Inl InvalidReturnRate)
   \<and> (currentAge p < retirementAge p \<and> 0 \<le> investmentReturn p \<and> investmentReturn p \<le> 50
        \<and> windfallAmount p < 0 \<longrightarrow> validate p = Inl InvalidWindfall)
   \<and> (currentAge p < retirementAge p \<and> 0 \<le> investmentReturn p \<and> investmentReturn p \<le> 50
        \<and> 0 \<le> windfallAmount p \<longrightarrow> validate p = Inr True)
   \<and> InvalidTimeline \<noteq> InvalidReturnRate \<and> InvalidTimeline \<noteq> InvalidWindfall
   \<and> InvalidReturnRate \<noteq> InvalidWindfall
   \<and> (\<forall>e. validate p = Inl e \<longrightarrow> project now p = Inl e \<and> (\<forall>rs. project now p \<noteq> Inr rs))
   \<and> (validate p = Inr True \<longrightarrow> (\<exists>rs. project now p = Inr rs))"
proof -
  have "InvalidTimeline \<noteq> InvalidReturnRate" "InvalidTimeline \<noteq> InvalidWindfall"
    "InvalidReturnRate \<noteq> InvalidWindfall"
    by (simp_all add: InvalidTimeline_def InvalidReturnRate_def InvalidWindfall_def)
  moreover have "project now p = Inl e \<and> (\<forall>rs. project now p \<noteq> Inr rs)"
    if "validate p = Inl e" for e
    using that by (simp add: project_invalid)
  moreover have "\<exists>rs. project now p = Inr rs" if "validate p = Inr True"
    using that by (simp add: project_valid)
  ultimately show ?thesis
    by (simp add: validate_def)
qed

theorem validate_first_failure_wins_witness:
  "validate (DEFAULT_PROFILE\<lparr>retirementAge := 40, investmentReturn := 60, windfallAmount := - 1\<rparr>)
     = Inl InvalidTimeline
   \<and> project 2026 (DEFAULT_PROFILE\<lparr>retirementAge := 40, investmentReturn := 60, windfallAmount := - 1\<rparr>)
     = Inl InvalidTimeline
   \<and> validate (DEFAULT_PROFILE\<lparr>investmentReturn := 60, windfallAmount := - 1\<rparr>)
     = Inl InvalidReturnRate
   \<and> project 2026 (DEFAULT_PROFILE\<lparr>investmentReturn := 60, windfallAmount := - 1\<rparr>)
     = Inl InvalidReturnRate
   \<and> validate (DEFAULT_PROFILE\<lparr>windfallAmount := - 1\<rparr>) = Inl InvalidWindfall
   \<and> project 2026 (DEFAULT_PROFILE\<lparr>windfallAmount := - 1\<rparr>) = Inl InvalidWindfall
   \<and> validate DEFAULT_PROFILE = Inr True
   \<and> (\<exists>rs. project 2026 DEFAULT_PROFILE = Inr rs)"
proof -
  let ?a = "DEFAULT_PROFILE\<lparr>retirementAge := 40, investmentReturn := 60, windfallAmount := - 1\<rparr>"
  let ?b = "DEFAULT_PROFILE\<lparr>investmentReturn := 60, windfallAmount := - 1\<rparr>"
  let ?c = "DEFAULT_PROFILE\<lparr>windfallAmount := - 1\<rparr>"
  have a: "validate ?a = Inl InvalidTimeline"
    using validate_first_failure_wins [of ?a] by (simp add: DEFAULT_PROFILE_def)
  have b: "validate ?b = Inl InvalidReturnRate"
    using validate_first_failure_wins [of ?b] by (simp add: DEFAULT_PROFILE_def)
  have c: "validate ?c = Inl InvalidWindfall"
    using validate_first_failure_wins [of ?c] by (simp add: DEFAULT_PROFILE_def)
  have d: "validate DEFAULT_PROFILE = Inr True"
    using validate_first_failure_wins [of DEFAULT_PROFILE] by (simp add: DEFAULT_PROFILE_def)
  have "project 2026 ?a = Inl InvalidTimeline"
    using validate_first_failure_wins [of ?a 2026] a by blast
  moreover have "project 2026 ?b = Inl InvalidReturnRate"
    using validate_first_failure_wins [of ?b 2026] b by blast
  moreover have "project 2026 ?c = Inl InvalidWindfall"
    using validate_first_failure_wins [of ?c 2026] c by blast
  moreover have "\<exists>rs. project 2026 DEFAULT_PROFILE = Inr rs"
    using validate_first_failure_wins [of DEFAULT_PROFILE 2026] d by blast
  ultimately show ?thesis
    using a b c d by blast
qed

subsection \<open>Inflated expenses\<close>

text \<open>
  Claim C5. In the projection of a profile that passes validation, the entry at offset
  \<open>k\<close> has the monthly rent \<open>rent \<times> (1 + expenseInflation/100)\<^sup>k\<close>, the other monthly
  expenses \<open>otherExpenses \<times> (1 + expenseInflation/100)\<^sup>k\<close>, and their sum as total
  monthly expenses. At offset 0 the exponent is 0: the entry carries \<open>rent\<close> and
  \<open>otherExpenses\<close> as they are in the profile.
\<close>

theorem project_inflated_expenses:
  assumes "validate p = Inr True"
  shows "\<exists>rs. project now p = Inr rs \<and> rs \<noteq> []
            \<and> (\<forall>k<length rs.
                  futureRent (rs ! k) = rent p * (1 + expenseInflation p / 100) ^ k
                \<and> futureOther (rs ! k) = otherExpenses p * (1 + expenseInflation p / 100) ^ k
                \<and> totalMonthlyExpenses (rs ! k) = futureRent (rs ! k) + futureOther (rs ! k))
            \<and> futureRent (rs ! 0) = rent p
            \<and> futureOther (rs ! 0) = otherExpenses p
            \<and> totalMonthlyExpenses (rs ! 0) = rent p + otherExpenses p"
proof -
  let ?n = "nat (retirementAge p - currentAge p + 1)"
  let ?rs = "map (yearly now p) [0..<?n]"
  have pos: "0 < ?n"
    using assms by (simp add: validate_Inr_iff)
  have "project now p = Inr ?rs"
    using assms by (rule project_valid)
  moreover have "?rs \<noteq> []"
    using pos by simp
  moreover have "\<forall>k<length ?rs.
                  futureRent (?rs ! k) = rent p * (1 + expenseInflation p / 100) ^ k
                \<and> futureOther (?rs ! k) = otherExpenses p * (1 + expenseInflation p / 100) ^ k
                \<and> totalMonthlyExpenses (?rs ! k) = futureRent (?rs ! k) + futureOther (?rs ! k)"
    by (simp add: yearly_def)
  moreover have "futureRent (?rs ! 0) = rent p" "futureOther (?rs ! 0) = otherExpenses p"
    "totalMonthlyExpenses (?rs ! 0) = rent p + otherExpenses p"
    using pos by (simp_all add: yearly_def)
  ultimately show ?thesis by blast
qed

theorem project_inflated_expenses_witness:
  "validate DEFAULT_PROFILE = Inr True
   \<and> (\<exists>rs. project 2026 DEFAULT_PROFILE = Inr rs \<and> rs \<noteq> []
         \<and> (\<forall>k<length rs.
               futureRent (rs ! k) = 1200 * (1 + 3 / 100) ^ k
             \<and> futureOther (rs ! k) = 800 * (1 + 3 / 100) ^ k
             \<and> totalMonthlyExpenses (rs ! k) = futureRent (rs ! k) + futureOther (rs ! k))
         \<and> futureRent (rs ! 0) = 1200
         \<and> futureOther (rs ! 0) = 800
         \<and> totalMonthlyExpenses (rs ! 0) = 1200 + 800)"
proof -
  have v: "validate DEFAULT_PROFILE = Inr True"
    by (simp add: validate_def DEFAULT_PROFILE_def)
  have f: "rent DEFAULT_PROFILE = 1200" "otherExpenses DEFAULT_PROFILE = 800"
    "expenseInflation DEFAULT_PROFILE = 3"
    by (simp_all add: DEFAULT_PROFILE_def)
  from project_inflated_expenses [OF v, of 2026] v show ?thesis
    unfolding f by blast
qed

subsection \<open>Safe withdrawal\<close>

text \<open>
  Claim C6. \<open>calculateSafeWithdrawal v\<close> is \<open>v \<times> rate / 12\<close> rounded, with the rate
  \<open>0.04\<close>; the result is a whole number and no whole number is nearer to
  \<open>v \<times> 0.04 / 12\<close>. For 6210 the result is \<open>round 20.7 = 21\<close>.
\<close>

theorem calculateSafeWithdrawal_round:
  "calculateSafeWithdrawal v = round (v * WITHDRAWAL_RATE / 12)
   \<and> WITHDRAWAL_RATE = 0.04
   \<and> (\<forall>m. \<bar>v * 0.04 / 12 - of_int (calculateSafeWithdrawal v)\<bar> \<le> \<bar>v * 0.04 / 12 - of_int m\<bar>)
   \<and> calculateSafeWithdrawal 6210 = round (20.7 :: real)
   \<and> calculateSafeWithdrawal 6210 = 21"
proof -
  have a: "calculateSafeWithdrawal v = round (v * WITHDRAWAL_RATE / 12)"
    by (simp add: calculateSafeWithdrawal_def Math_round_def round_def Let_def)
  have b: "WITHDRAWAL_RATE = 0.04"
    by (simp add: WITHDRAWAL_RATE_def)
  have c: "\<bar>v * 0.04 / 12 - of_int (calculateSafeWithdrawal v)\<bar> \<le> \<bar>v * 0.04 / 12 - of_int m\<bar>" for m
    unfolding a b by (rule round_diff_minimal)
  have d: "calculateSafeWithdrawal 6210 = 21" by code_simp
  have e: "round (20.7 :: real) = 21" by (simp add: round_def)
  from a b c d e show ?thesis by simp
qed

subsection \<open>Currency formatting\<close>

text \<open>
  Claim C7, as the code has it. Quotients are doubles, and \<^verbatim>\<open>toFixed\<close> prints the
  decimals of the double, rounded to the nearest with a tie going up.
  \<open>formatCurrency v\<close> is
  \<^item> for \<open>v \<ge> 10\<^sup>9\<close>: a dollar sign, what \<^verbatim>\<open>toFixed(2)\<close> prints for \<open>v / 10\<^sup>9\<close>, and \<open>B\<close>;
    this is the quotient with two decimals as long as the quotient is below \<open>10\<^sup>2\<^sup>1\<close>,
    and the quotient as the general number printer prints it (exponent notation) from
    \<open>10\<^sup>2\<^sup>1\<close> on;
  \<^item> for \<open>10\<^sup>6 \<le> v < 10\<^sup>9\<close>: a dollar sign, \<open>v / 10\<^sup>6\<close> with two decimals, and \<open>M\<close>;
  \<^item> for \<open>10\<^sup>4 \<le> v < 10\<^sup>6\<close>: a dollar sign, \<open>v / 10\<^sup>3\<close> with one decimal, and \<open>k\<close>;
  \<^item> for \<open>v < 10\<^sup>4\<close>: a dollar sign and what the locale of the host prints for \<open>v\<close>
    rounded to a whole number.

  A number with two decimals is printed as the digits of \<open>n div 100\<close>, a point, and the
  last two digits of \<open>n\<close>, where \<open>n\<close> is the number times 100, rounded; likewise with
  one decimal. In the locale \<^verbatim>\<open>en-US\<close>, \<open>formatCurrency 12345678\<close> is \<open>$12.35M\<close> and
  \<open>formatCurrency 950\<close> is \<open>$950\<close>; 9500 is below the threshold \<open>10\<^sup>4\<close> of the \<open>k\<close> form,
  and \<open>formatCurrency 9500\<close> is \<open>$9,500\<close>.
\<close>

theorem formatCurrency_thresholds:
  "(1000000000 \<le> v \<and> double_of (v / 1000000000) < 10 ^ 21 \<longrightarrow>
      formatCurrency loc v =
        (let n = nat (round (double_of (v / 1000000000) * 100))
         in ''$'' @ digits (n div 100) @ ''.''
              @ [digit_char (n div 10 mod 10), digit_char (n mod 10)] @ ''B''))
   \<and> (1000000000 \<le> v \<and> 10 ^ 21 \<le> double_of (v / 1000000000) \<longrightarrow>
      formatCurrency loc v = ''$'' @ Number_toString (double_of (v / 1000000000)) @ ''B'')
   \<and> (1000000 \<le> v \<and> v < 1000000000 \<longrightarrow>
      formatCurrency loc v =
        (let n = nat (round (double_of (v / 1000000) * 100))
         in ''$'' @ digits (n div 100) @ ''.''
              @ [digit_char (n div 10 mod 10), digit_char (n mod 10)] @ ''M''))
   \<and> (10000 \<le> v \<and> v < 1000000 \<longrightarrow>
      formatCurrency loc v =
        (let n = nat (round (double_of (v / 1000) * 10))
         in ''$'' @ digits (n div 10) @ ''.'' @ [digit_char (n mod 10)] @ ''k''))
   \<and> (v < 10000 \<longrightarrow> formatCurrency loc v = ''$'' @ loc (Math_round_signed v))
   \<and> formatCurrency toLocaleString_en_US 12345678 = ''$12.35M''
   \<and> formatCurrency toLocaleString_en_US 9500 = ''$9,500''
   \<and> formatCurrency toLocaleString_en_US 950 = ''$950''"
proof -
  have B: "formatCurrency loc v =
        (let n = nat (round (double_of (v / 1000000000) * 100))
         in ''$'' @ digits (n div 100) @ ''.''
              @ [digit_char (n div 10 mod 10), digit_char (n mod 10)] @ ''B'')"
    if "1000000000 \<le> v" "double_of (v / 1000000000) < 10 ^ 21"
  proof -
    have "0 \<le> v / 1000000000"
      using that(1) by simp
    then have "0 \<le> double_of (v / 1000000000)"
      by (rule double_of_nonneg)
    then have tf: "toFixed 2 (double_of (v / 1000000000)) =
        (let n = nat (round (double_of (v / 1000000000) * 100))
         in digits (n div 100) @ ''.'' @ [digit_char (n div 10 mod 10), digit_char (n mod 10)])"
      using that(2) by (rule toFixed_2)
    show ?thesis
      unfolding formatCurrency_def tf using that(1) by (simp add: Let_def)
  qed
  have E: "formatCurrency loc v = ''$'' @ Number_toString (double_of (v / 1000000000)) @ ''B''"
    if "1000000000 \<le> v" "10 ^ 21 \<le> double_of (v / 1000000000)"
  proof -
    have tf: "toFixed 2 (double_of (v / 1000000000)) = Number_toString (double_of (v / 1000000000))"
      using that(2) by (rule toFixed_exponent)
    show ?thesis
      unfolding formatCurrency_def tf using that(1) by simp
  qed
  have M: "formatCurrency loc v =
        (let n = nat (round (double_of (v / 1000000) * 100))
         in ''$'' @ digits (n div 100) @ ''.''
              @ [digit_char (n div 10 mod 10), digit_char (n mod 10)] @ ''M'')"
    if "1000000 \<le> v" "v < 1000000000"
  proof -
    have q: "1 \<le> v / 1000000"
      using that(1) by simp
    then have "0 \<le> double_of (v / 1000000)"
      by (intro double_of_nonneg) simp
    moreover have "double_of (v / 1000000) < 10 ^ 21"
      using double_of_le [OF q] that(2) by simp
    ultimately have tf: "toFixed 2 (double_of (v / 1000000)) =
        (let n = nat (round (double_of (v / 1000000) * 100))
         in digits (n div 100) @ ''.'' @ [digit_char (n div 10 mod 10), digit_char (n mod 10)])"
      by (rule toFixed_2)
    show ?thesis
      unfolding formatCurrency_def tf using that by (simp add: Let_def)
  qed
  have k: "formatCurrency loc v =
        (let n = nat (round (double_of (v / 1000) * 10))
         in ''$'' @ digits (n div 10) @ ''.'' @ [digit_char (n mod 10)] @ ''k'')"
    if "10000 \<le> v" "v < 1000000"
  proof -
    have q: "1 \<le> v / 1000"
      using that(1) by simp
    then have "0 \<le> double_of (v / 1000)"
      by (intro double_of_nonneg) simp
    moreover have "double_of (v / 1000) < 10 ^ 21"
      using double_of_le [OF q] that(2) by simp
    ultimately have tf: "toFixed 1 (double_of (v / 1000)) =
        (let n = nat (round (double_of (v / 1000) * 10))
         in digits (n div 10) @ ''.'' @ [digit_char (n mod 10)])"
      by (rule toFixed_1)
    show ?thesis
      unfolding formatCurrency_def tf using that by (simp add: Let_def)
  qed
  have u: "formatCurrency loc v = ''$'' @ loc (Math_round_signed v)" if "v < 10000"
    using that by (simp add: formatCurrency_def)
  have e1: "formatCurrency toLocaleString_en_US 12345678 = ''$12.35M''" by code_simp
  have e2: "formatCurrency toLocaleString_en_US 9500 = ''$9,500''" by code_simp
  have e3: "formatCurrency toLocaleString_en_US 950 = ''$950''" by code_simp
  from B E M k u e1 e2 e3 show ?thesis by blast
qed

text \<open>
  One amount for each of the five cases, in the locale \<^verbatim>\<open>en-US\<close>. The quotients
  \<open>1005000 / 10\<^sup>6\<close> and \<open>10350 / 10\<^sup>3\<close> are not doubles: the doubles nearest to them are
  below \<open>1.005\<close> and \<open>10.35\<close>, and are printed as \<open>1.00\<close> and \<open>10.3\<close>. A quarter of a
  dollar owed rounds to the negative zero.
\<close>

theorem formatCurrency_thresholds_witness:
  "formatCurrency toLocaleString_en_US 2500000000 = ''$2.50B''
   \<and> formatCurrency toLocaleString_en_US (10 ^ 30) = ''$1e+21B''
   \<and> formatCurrency toLocaleString_en_US 1005000 = ''$1.00M''
   \<and> formatCurrency toLocaleString_en_US 10350 = ''$10.3k''
   \<and> formatCurrency toLocaleString_en_US 9999 = ''$9,999''
   \<and> formatCurrency toLocaleString_en_US (- 0.25) = ''$-0''"
proof -
  let ?loc = toLocaleString_en_US
  have B: "formatCurrency ?loc 2500000000 = ''$2.50B''"
  proof -
    have h: "(1000000000 :: real) \<le> 2500000000 \<and> double_of (2500000000 / 1000000000) < 10 ^ 21"
      by code_simp
    have r: "(let n = nat (round (double_of (2500000000 / 1000000000) * 100))
              in ''$'' @ digits (n div 100) @ ''.''
                   @ [digit_char (n div 10 mod 10), digit_char (n mod 10)] @ ''B'') = ''$2.50B''"
      by code_simp
    from formatCurrency_thresholds [of 2500000000 ?loc] h r show ?thesis
      by (simp only:)
  qed
  have E: "formatCurrency ?loc (10 ^ 30) = ''$1e+21B''"
  proof -
    have h: "(1000000000 :: real) \<le> 10 ^ 30 \<and> 10 ^ 21 \<le> double_of (10 ^ 30 / 1000000000)"
      by code_simp
    have r: "''$'' @ Number_toString (double_of (10 ^ 30 / 1000000000)) @ ''B'' = ''$1e+21B''"
      by code_simp
    from formatCurrency_thresholds [of "10 ^ 30" ?loc] h r show ?thesis
      by (simp only:)
  qed
  have M: "formatCurrency ?loc 1005000 = ''$1.00M''"
  proof -
    have h: "(1000000 :: real) \<le> 1005000 \<and> (1005000 :: real) < 1000000000"
      by simp
    have r: "(let n = nat (round (double_of (1005000 / 1000000) * 100))
              in ''$'' @ digits (n div 100) @ ''.''
                   @ [digit_char (n div 10 mod 10), digit_char (n mod 10)] @ ''M'') = ''$1.00M''"
      by code_simp
    from formatCurrency_thresholds [of 1005000 ?loc] h r show ?thesis
      by (simp only:)
  qed
  have k: "formatCurrency ?loc 10350 = ''$10.3k''"
  proof -
    have h: "(10000 :: real) \<le> 10350 \<and> (10350 :: real) < 1000000"
      by simp
    have r: "(let n = nat (round (double_of (10350 / 1000) * 10))
              in ''$'' @ digits (n div 10) @ ''.'' @ [digit_char (n mod 10)] @ ''k'') = ''$10.3k''"
      by code_simp
    from formatCurrency_thresholds [of 10350 ?loc] h r show ?thesis
      by (simp only:)
  qed
  have u: "formatCurrency ?loc 9999 = ''$9,999''"
  proof -
    have h: "(9999 :: real) < 10000"
      by simp
    have r: "''$'' @ ?loc (Math_round_signed 9999) = ''$9,999''"
      by code_simp
    from formatCurrency_thresholds [of 9999 ?loc] h r show ?thesis
      by (simp only:)
  qed
  have z: "formatCurrency ?loc (- 0.25) = ''$-0''"
  proof -
    have h: "(- 0.25 :: real) < 10000"
      by simp
    have r: "''$'' @ ?loc (Math_round_signed (- 0.25)) = ''$-0''"
      by code_simp
    from formatCurrency_thresholds [of "- 0.25" ?loc] h r show ?thesis
      by (simp only:)
  qed
  from B E M k u z show ?thesis by blast
qed

text \<open>
  Two examples against the claim as it was stated: for 9500 the result is not
  \<open>$9.5k\<close>, and for \<open>10\<^sup>3\<^sup>0\<close> the result is not \<open>10\<^sup>2\<^sup>1\<close> with two decimals.
\<close>

theorem formatCurrency_counterexample:
  "formatCurrency toLocaleString_en_US 9500 \<noteq> ''$9.5k''
   \<and> formatCurrency toLocaleString_en_US (10 ^ 30) \<noteq> ''$1000000000000000000000.00B''"
  by code_simp

subsection \<open>A portfolio that neither grows nor receives money\<close>

text \<open>
  Claim C8. For a profile that passes validation and has \<open>investmentReturn = 0\<close>,
  \<open>monthlyInvestment = 0\<close> and \<open>windfallAmount = 0\<close>, the portfolio of every entry of the
  projection is \<open>currentSavings\<close>.
\<close>

theorem project_constant_portfolio:
  assumes "validate p = Inr True"
    and "investmentReturn p = 0" and "monthlyInvestment p = 0" and "windfallAmount p = 0"
  shows "\<exists>rs. project now p = Inr rs \<and> (\<forall>k<length rs. portfolio (rs ! k) = currentSavings p)"
proof -
  let ?rs = "map (yearly now p) [0..<nat (retirementAge p - currentAge p + 1)]"
  have "project now p = Inr ?rs"
    using assms(1) by (rule project_valid)
  moreover have "\<forall>k<length ?rs. portfolio (?rs ! k) = currentSavings p"
    using portfolio_before_const [OF assms(2-4)]
    by (simp add: yearly_def del: portfolio_before.simps)
  ultimately show ?thesis by blast
qed

theorem project_constant_portfolio_witness:
  "validate (DEFAULT_PROFILE\<lparr>currentSavings := 5000, monthlyInvestment := 0,
      investmentReturn := 0, windfallAmount := 0\<rparr>) = Inr True
   \<and> (\<exists>rs. project 2026 (DEFAULT_PROFILE\<lparr>currentSavings := 5000, monthlyInvestment := 0,
              investmentReturn := 0, windfallAmount := 0\<rparr>) = Inr rs
         \<and> (\<forall>k<length rs. portfolio (rs ! k) = 5000))"
proof -
  let ?p = "DEFAULT_PROFILE\<lparr>currentSavings := 5000, monthlyInvestment := 0,
      investmentReturn := 0, windfallAmount := 0\<rparr>"
  have v: "validate ?p = Inr True"
    by (simp add: validate_def DEFAULT_PROFILE_def)
  have z: "investmentReturn ?p = 0" "monthlyInvestment ?p = 0" "windfallAmount ?p = 0"
    by simp_all
  have f: "currentSavings ?p = 5000"
    by simp
  from project_constant_portfolio [OF v z, of 2026] v show ?thesis
    unfolding f by blast
qed

subsection \<open>The profile is left as it was\<close>

text \<open>
  Claim C9. Running the projection leaves the profile unchanged, field by field: the
  profile after \<open>project\<close> is the profile before it, whether validation fails or not.
  Neither one iteration of the loop nor the whole loop changes the profile; an
  iteration writes only \<open>portfolioValue\<close> and \<open>results\<close>.
\<close>

theorem project_profile_unchanged:
  "snd (project_st now p) = p
   \<and> profile (loop_body c k s) = profile s
   \<and> profile (project_loop c n k s) = profile s"
  by (simp add: project_st_def Let_def project_loop_profile loop_body_profile split: sum.split)

subsection \<open>The portfolio never shrinks\<close>

text \<open>
  Claim C10. For a profile that passes validation and has non-negative
  \<open>currentSavings\<close>, \<open>monthlyInvestment\<close> and \<open>windfallAmount\<close>, the portfolios of the
  projection are non-decreasing in the offset, and each of them is at least
  \<open>currentSavings\<close>.
\<close>

theorem project_portfolio_monotone:
  assumes "validate p = Inr True"
    and "0 \<le> currentSavings p" and "0 \<le> monthlyInvestment p" and "0 \<le> windfallAmount p"
  shows "\<exists>rs. project now p = Inr rs
            \<and> (\<forall>i j. i \<le> j \<and> j < length rs \<longrightarrow> portfolio (rs ! i) \<le> portfolio (rs ! j))
            \<and> sorted (map portfolio rs)
            \<and> (\<forall>k<length rs. currentSavings p \<le> portfolio (rs ! k))"
proof -
  let ?rs = "map (yearly now p) [0..<nat (retirementAge p - currentAge p + 1)]"
  have r: "0 \<le> investmentReturn p"
    using assms(1) by (simp add: validate_Inr_iff)
  note mono = portfolio_before_mono [OF r assms(3,4,2)]
  note ge = portfolio_before_ge [OF r assms(3,4,2)]
  have "project now p = Inr ?rs"
    using assms(1) by (rule project_valid)
  moreover have m: "\<forall>i j. i \<le> j \<and> j < length ?rs \<longrightarrow> portfolio (?rs ! i) \<le> portfolio (?rs ! j)"
    using mono by (simp add: yearly_def del: portfolio_before.simps)
  moreover have "sorted (map portfolio ?rs)"
    using m by (simp add: sorted_iff_nth_mono del: portfolio_before.simps)
  moreover have "\<forall>k<length ?rs. currentSavings p \<le> portfolio (?rs ! k)"
    using ge by (simp add: yearly_def del: portfolio_before.simps)
  ultimately show ?thesis by blast
qed

theorem project_portfolio_monotone_witness:
  "validate DEFAULT_PROFILE = Inr True
   \<and> (0::real) \<le> 0 \<and> (0::real) \<le> 250 \<and> (0::real) \<le> 10000
   \<and> (\<exists>rs. project 2026 DEFAULT_PROFILE = Inr rs
         \<and> (\<forall>i j. i \<le> j \<and> j < length rs \<longrightarrow> portfolio (rs ! i) \<le> portfolio (rs ! j))
         \<and> sorted (map portfolio rs)
         \<and> (\<forall>k<length rs. 0 \<le> portfolio (rs ! k)))"
proof -
  have v: "validate DEFAULT_PROFILE = Inr True"
    by (simp add: validate_def DEFAULT_PROFILE_def)
  have f: "currentSavings DEFAULT_PROFILE = 0" "monthlyInvestment DEFAULT_PROFILE = 250"
    "windfallAmount DEFAULT_PROFILE = 10000"
    by (simp_all add: DEFAULT_PROFILE_def)
  have h: "0 \<le> currentSavings DEFAULT_PROFILE" "0 \<le> monthlyInvestment DEFAULT_PROFILE"
    "0 \<le> windfallAmount DEFAULT_PROFILE"
    by (simp_all add: f)
  from project_portfolio_monotone [OF v h, of 2026] v show ?thesis
    unfolding f by simp
qed

end
